theory Spec2Isabelle
  imports Main
begin

section \<open>The adapter store (stores/adapter.store.ts)\<close>

text \<open>
  The store is a zustand state object with four data fields and eight actions. The model
  passes the state explicitly: every action takes the state and returns the new one.

  The awaited calls into a plugin (\<open>initialize\<close>, \<open>activate\<close>, \<open>deactivate\<close>,
  \<open>cleanup\<close>) are code of the plugin, not of the store. Each action takes the outcome
  of every plugin call it may make as an argument: \<open>Inr ()\<close> when the promise resolves,
  \<open>Inl e\<close> when it rejects with \<open>e\<close>. A theorem quantified over these arguments
  holds whatever the plugins do, as long as their promises settle. \<open>Date.now()\<close> is an
  argument too.

  A registration object is shared between the local variable \<open>pluginReg\<close> and the map,
  and the source writes its fields in place before it calls \<open>set\<close> with the same
  object; the model writes the updated record into the map at that key, which is the
  state the source has after the \<open>set\<close>. Calls of the logger are left out;
  emissions on the event bus and calls into plugins are returned as a list of effects, in
  program order.

  \<open>registeredPlugins\<close> is a plain object, read with \<open>registeredPlugins[name]\<close>.
  Such a read finds the object's own property of that name, and otherwise the property
  that every object inherits under that name. The own properties are the registrations,
  kept as a map. The inherited ones are the built-in members of \<open>Object.prototype\<close>:
  functions, and under \<open>__proto__\<close> the prototype itself. Each of them is truthy and
  has no \<open>plugin\<close>, \<open>config\<close> or \<open>instance\<close> field, so a read such as
  \<open>pluginReg.config.enabled\<close> throws a \<open>TypeError\<close> on it (\<open>TypeError p\<close> is
  the error of reading the property \<open>p\<close> of \<open>undefined\<close>). The model takes the built-in objects
  as the runtime creates them. Where the source writes a field of one, the model returns
  the effect \<open>WriteBuiltinObject\<close>; the own property the source then stores under
  that name holds the same built-in object, so a read under the name finds what it found
  before and the map of registrations is as it was. What later calls would read back
  from the written fields is not followed.
\<close>

datatype err = ErrorMessage string | ErrorObject string | TypeError string

type_synonym 'a attempt = "err + 'a"

datatype File = File string string

record AdapterPlugin =
  name :: string
  version :: string
  capabilities :: "string list"
  insertText :: "(string \<Rightarrow> bool attempt) option"
  attachFile :: "(File \<Rightarrow> bool attempt) option"
  submitForm :: "bool attempt option"

record PluginConfig =
  enabled :: bool
  settings :: "string \<rightharpoonup> string"

record ConfigUpdate =
  enabledUpdate :: "bool option"
  settingsUpdate :: "string \<rightharpoonup> string"

datatype PluginStatus = Registered | Initialized | Active | Inactive | Error

record PluginRegistration =
  plugin :: AdapterPlugin
  config :: PluginConfig
  registeredAt :: nat
  status :: PluginStatus
  instance' :: "AdapterPlugin option"
  error :: "err option"
  lastUsedAt :: "nat option"

record AdapterState =
  registeredPlugins :: "string \<rightharpoonup> PluginRegistration"
  activeAdapterName :: "string option"
  currentCapabilities :: "string list"
  lastAdapterError :: "(string \<times> err) option"

datatype StoreEffect =
  CallInitialize string
  | CallActivate string
  | CallDeactivate string
  | CallCleanup string
  | Emit string string
  | WriteBuiltinObject string

definition initialState :: AdapterState where
  "initialState =
     \<lparr>registeredPlugins = Map.empty, activeAdapterName = None,
      currentCapabilities = [], lastAdapterError = None\<rparr>"

text \<open>The names of the properties of \<open>Object.prototype\<close>, and the read \<open>registeredPlugins[name]\<close>.\<close>

definition objectPrototypeNames :: "string list" where
  "objectPrototypeNames =
     [''constructor'', ''__defineGetter__'', ''__defineSetter__'', ''hasOwnProperty'',
      ''__lookupGetter__'', ''__lookupSetter__'', ''isPrototypeOf'', ''propertyIsEnumerable'',
      ''toString'', ''valueOf'', ''__proto__'', ''toLocaleString'']"

datatype lookupResult = Missing | Own PluginRegistration | Inherited

definition lookupPlugin :: "AdapterState \<Rightarrow> string \<Rightarrow> lookupResult" where
  "lookupPlugin s nm =
     (case registeredPlugins s nm of
        Some pluginReg \<Rightarrow> Own pluginReg
      | None \<Rightarrow> if nm \<in> set objectPrototypeNames then Inherited else Missing)"

text \<open>\<open>pluginReg.instance\<close> on what a read found: a built-in object has no such field.\<close>

definition instanceOf :: "lookupResult \<Rightarrow> AdapterPlugin option" where
  "instanceOf found = (case found of Own pluginReg \<Rightarrow> instance' pluginReg | _ \<Rightarrow> None)"

definition getPlugin :: "string \<Rightarrow> AdapterState \<Rightarrow> lookupResult" where
  "getPlugin nm s = lookupPlugin s nm"

text \<open>\<open>activeName ? ... : undefined\<close>: the empty string is falsy, like \<open>null\<close>.\<close>

definition getActiveAdapter :: "AdapterState \<Rightarrow> lookupResult" where
  "getActiveAdapter s =
     (case activeAdapterName s of
        None \<Rightarrow> Missing
      | Some activeName \<Rightarrow> if activeName = [] then Missing else lookupPlugin s activeName)"

definition registerPlugin ::
  "AdapterPlugin \<Rightarrow> PluginConfig \<Rightarrow> nat \<Rightarrow> AdapterState
     \<Rightarrow> bool attempt \<times> StoreEffect list \<times> AdapterState" where
  "registerPlugin p cfg now s =
     (if lookupPlugin s (name p) \<noteq> Missing then (Inr False, [], s)
      else
        let registration =
              \<lparr>plugin = p, config = cfg, registeredAt = now, status = Registered,
               instance' = None, error = None, lastUsedAt = None\<rparr>
        in (Inr True, [Emit ''plugin:registered'' (name p)],
            s\<lparr>registeredPlugins := (registeredPlugins s)(name p \<mapsto> registration)\<rparr>))"

text \<open>
  \<open>unregisterPlugin\<close>: the \<open>try\<close> block awaits \<open>deactivate\<close> and then
  \<open>cleanup\<close>; a rejection of the first skips the second; the \<open>catch\<close> logs and
  goes on. The result is the promise of the action: \<open>Inl e\<close> would be a rejection.
\<close>

definition unregisterChain :: "string \<Rightarrow> unit attempt \<Rightarrow> unit attempt \<Rightarrow> unit attempt \<times> StoreEffect list" where
  "unregisterChain nm deactivate cleanup =
     (case deactivate of
        Inl e \<Rightarrow> (Inl e, [CallDeactivate nm])
      | Inr _ \<Rightarrow>
          (case cleanup of
             Inl e \<Rightarrow> (Inl e, [CallDeactivate nm, CallCleanup nm])
           | Inr _ \<Rightarrow> (Inr (), [CallDeactivate nm, CallCleanup nm])))"

definition unregisterPlugin ::
  "string \<Rightarrow> unit attempt \<Rightarrow> unit attempt \<Rightarrow> AdapterState
     \<Rightarrow> unit attempt \<times> StoreEffect list \<times> AdapterState" where
  "unregisterPlugin nm deactivate cleanup s =
     (case lookupPlugin s nm of
        Missing \<Rightarrow> (Inr (), [], s)
      | pluginReg \<Rightarrow>
          let (guarded, calls) =
                (if activeAdapterName s = Some nm \<and> instanceOf pluginReg \<noteq> None
                 then (case unregisterChain nm deactivate cleanup of
                         (Inl e, cs) \<Rightarrow> (Inr (), cs)
                       | (Inr u, cs) \<Rightarrow> (Inr u, cs))
                 else (Inr (), []))
          in (case guarded of
                Inl e \<Rightarrow> (Inl e, calls, s)
              | Inr _ \<Rightarrow>
                  (Inr (), calls @ [Emit ''plugin:unregistered'' nm],
                   s\<lparr>registeredPlugins := (registeredPlugins s)(nm := None),
                     activeAdapterName :=
                       (if activeAdapterName s = Some nm then None else activeAdapterName s),
                     currentCapabilities :=
                       (if activeAdapterName s = Some nm then [] else currentCapabilities s)\<rparr>)))"

text \<open>
  \<open>setPluginError\<close>: for a name that reads as a built-in object, the two field
  writes go to that object.
\<close>

definition setPluginError :: "string \<Rightarrow> err \<Rightarrow> AdapterState \<Rightarrow> StoreEffect list \<times> AdapterState" where
  "setPluginError nm e s =
     (case lookupPlugin s nm of
        Own pluginReg \<Rightarrow>
          ([Emit ''adapter:error'' nm],
           s\<lparr>registeredPlugins :=
                (registeredPlugins s)(nm \<mapsto> pluginReg\<lparr>status := Error, error := Some e\<rparr>),
             lastAdapterError := Some (nm, e)\<rparr>)
      | Inherited \<Rightarrow>
          ([WriteBuiltinObject nm, Emit ''adapter:error'' nm],
           s\<lparr>lastAdapterError := Some (nm, e)\<rparr>)
      | Missing \<Rightarrow> ([Emit ''adapter:error'' nm], s\<lparr>lastAdapterError := Some (nm, e)\<rparr>))"

definition quoted :: "string \<Rightarrow> string" where
  "quoted nm = CHR 0x22 # nm @ [CHR 0x22]"

text \<open>
  \<open>activateAdapter\<close>, first part (lines 95 to 110): the adapter that holds the slot is
  asked to deactivate when it is another plugin and not the sidebar plugin. The block
  calls the plugin and emits \<open>adapter:deactivated\<close>; it writes nothing to the store.
  Were the pointer a name that reads as a built-in object, \<open>currentActiveAdapter.plugin.name\<close>
  would throw, outside any \<open>try\<close>.
\<close>

definition deactivatePrevious ::
  "string \<Rightarrow> unit attempt \<Rightarrow> AdapterState \<Rightarrow> StoreEffect list attempt" where
  "deactivatePrevious nm prevDeactivate s =
     (case getActiveAdapter s of
        Missing \<Rightarrow> Inr []
      | Inherited \<Rightarrow> Inl (TypeError ''name'')
      | Own currentActiveAdapter \<Rightarrow>
          let cur = name (plugin currentActiveAdapter) in
          if cur \<noteq> nm then
            (if cur \<noteq> ''sidebar-plugin'' then
               (case instance' currentActiveAdapter of
                  None \<Rightarrow> Inr [Emit ''adapter:deactivated'' cur]
                | Some _ \<Rightarrow>
                    (case prevDeactivate of
                       Inr _ \<Rightarrow> Inr [CallDeactivate cur, Emit ''adapter:deactivated'' cur]
                     | Inl _ \<Rightarrow> Inr [CallDeactivate cur]))
             else Inr [])
          else Inr [])"

text \<open>
  Second part (lines 112 to 152): lazy initialisation, activation, and the \<open>catch\<close>
  that records a rejection of either call.
\<close>

definition activationFailed ::
  "string \<Rightarrow> err \<Rightarrow> PluginRegistration \<Rightarrow> AdapterState \<Rightarrow> StoreEffect list \<times> AdapterState" where
  "activationFailed nm e pluginReg s =
     ([Emit ''plugin:activation-failed'' nm, Emit ''adapter:error'' nm],
      s\<lparr>lastAdapterError := Some (nm, e),
        registeredPlugins :=
          (registeredPlugins s)(nm \<mapsto> pluginReg\<lparr>status := Error, error := Some e\<rparr>)\<rparr>)"

definition activateRegistered ::
  "string \<Rightarrow> PluginRegistration \<Rightarrow> StoreEffect list \<Rightarrow> unit attempt \<Rightarrow> unit attempt \<Rightarrow> nat
     \<Rightarrow> AdapterState \<Rightarrow> bool attempt \<times> StoreEffect list \<times> AdapterState" where
  "activateRegistered nm pluginReg pre initialize activate now s =
     (let (initResult, initEffects, reg1) =
            (case instance' pluginReg of
               Some _ \<Rightarrow> (Inr (), [], pluginReg)
             | None \<Rightarrow>
                 (case initialize of
                    Inl e \<Rightarrow> (Inl e, [CallInitialize nm], pluginReg)
                  | Inr _ \<Rightarrow>
                      (Inr (),
                       [CallInitialize nm, Emit ''plugin:initialization-complete'' nm],
                       pluginReg\<lparr>instance' := Some (plugin pluginReg),
                                 status := Initialized\<rparr>)))
      in (case initResult of
            Inl e \<Rightarrow>
              (let (es, s') = activationFailed nm e reg1 s
               in (Inr False, pre @ initEffects @ es, s'))
          | Inr _ \<Rightarrow>
              (case activate of
                 Inl e \<Rightarrow>
                   (let (es, s') = activationFailed nm e reg1 s
                    in (Inr False, pre @ initEffects @ [CallActivate nm] @ es, s'))
               | Inr _ \<Rightarrow>
                   (Inr True,
                    pre @ initEffects @
                      [CallActivate nm, Emit ''adapter:activated'' nm,
                       Emit ''adapter:capability-changed'' nm],
                    s\<lparr>activeAdapterName :=
                        (if nm \<noteq> ''sidebar-plugin'' then Some nm else activeAdapterName s),
                      currentCapabilities := capabilities (plugin pluginReg),
                      lastAdapterError := None,
                      registeredPlugins :=
                        (registeredPlugins s)
                          (nm \<mapsto> reg1\<lparr>status := Active, lastUsedAt := Some now\<rparr>)\<rparr>))))"

text \<open>
  The whole action. The two guards (lines 83 to 93) come first. For a name that reads as
  a built-in object the first guard passes, since the object is truthy, and the second
  throws on \<open>pluginReg.config.enabled\<close>: the promise of the action rejects and the
  store is not written.
\<close>

definition activateAdapter ::
  "string \<Rightarrow> unit attempt \<Rightarrow> unit attempt \<Rightarrow> unit attempt \<Rightarrow> nat \<Rightarrow> AdapterState
     \<Rightarrow> bool attempt \<times> StoreEffect list \<times> AdapterState" where
  "activateAdapter nm prevDeactivate initialize activate now s =
     (case lookupPlugin s nm of
        Missing \<Rightarrow>
          (let (es, s') = setPluginError nm (ErrorMessage (''Plugin '' @ quoted nm @ '' not registered.'')) s
           in (Inr False, es, s'))
      | Inherited \<Rightarrow> (Inl (TypeError ''enabled''), [], s)
      | Own pluginReg \<Rightarrow>
          if \<not> enabled (config pluginReg) then
            (let (es, s') = setPluginError nm (ErrorMessage (''Plugin '' @ quoted nm @ '' is disabled.'')) s
             in (Inr False, es, s'))
          else
            (case deactivatePrevious nm prevDeactivate s of
               Inl e \<Rightarrow> (Inl e, [], s)
             | Inr pre \<Rightarrow> activateRegistered nm pluginReg pre initialize activate now s))"

text \<open>
  \<open>deactivateAdapter\<close>: \<open>pluginReg.instance?.deactivate()\<close> makes no call when there
  is no instance. The reason only goes into the emitted event. A built-in object has no
  instance; the status is written to it.
\<close>

definition deactivateAdapter ::
  "string \<Rightarrow> string option \<Rightarrow> unit attempt \<Rightarrow> AdapterState
     \<Rightarrow> unit attempt \<times> StoreEffect list \<times> AdapterState" where
  "deactivateAdapter nm reason deactivate s =
     (case lookupPlugin s nm of
        Missing \<Rightarrow> (Inr (), [], s)
      | Inherited \<Rightarrow>
          if activeAdapterName s \<noteq> Some nm then (Inr (), [], s)
          else
            (Inr (), [WriteBuiltinObject nm, Emit ''adapter:deactivated'' nm],
             s\<lparr>activeAdapterName := None, currentCapabilities := []\<rparr>)
      | Own pluginReg \<Rightarrow>
          if activeAdapterName s \<noteq> Some nm then (Inr (), [], s)
          else
            let (called, calls) =
                  (case instance' pluginReg of
                     None \<Rightarrow> (Inr (), [])
                   | Some _ \<Rightarrow> (deactivate, [CallDeactivate nm]))
            in (case called of
                  Inr _ \<Rightarrow>
                    (Inr (), calls @ [Emit ''adapter:deactivated'' nm],
                     s\<lparr>activeAdapterName := None,
                       currentCapabilities := [],
                       registeredPlugins :=
                         (registeredPlugins s)(nm \<mapsto> pluginReg\<lparr>status := Inactive\<rparr>)\<rparr>)
                | Inl e \<Rightarrow>
                    (Inr (), calls @ [Emit ''adapter:error'' nm],
                     s\<lparr>lastAdapterError := Some (nm, e),
                       registeredPlugins :=
                         (registeredPlugins s)
                           (nm \<mapsto> pluginReg\<lparr>status := Error, error := Some e\<rparr>)\<rparr>)))"

text \<open>
  \<open>updatePluginConfig\<close>: the spread \<open>{...config, ...configUpdate}\<close> takes every field
  the update gives. The call of \<open>deactivateAdapter\<close> is not awaited; the model runs it to
  its end, as one step. On a built-in object the new \<open>config\<close> holds the fields of the
  update only, so its \<open>enabled\<close> is \<open>false\<close> when the update says so.
\<close>

definition mergeConfig :: "PluginConfig \<Rightarrow> ConfigUpdate \<Rightarrow> PluginConfig" where
  "mergeConfig c u =
     \<lparr>enabled = (case enabledUpdate u of None \<Rightarrow> enabled c | Some b \<Rightarrow> b),
      settings = settings c ++ settingsUpdate u\<rparr>"

definition updatePluginConfig ::
  "string \<Rightarrow> ConfigUpdate \<Rightarrow> unit attempt \<Rightarrow> AdapterState \<Rightarrow> StoreEffect list \<times> AdapterState" where
  "updatePluginConfig nm configUpdate deactivate s =
     (case lookupPlugin s nm of
        Own pluginReg \<Rightarrow>
          let pluginReg' = pluginReg\<lparr>config := mergeConfig (config pluginReg) configUpdate\<rparr>;
              s1 = s\<lparr>registeredPlugins := (registeredPlugins s)(nm \<mapsto> pluginReg')\<rparr>
          in if Some nm = activeAdapterName s1 \<and> \<not> enabled (config pluginReg')
             then snd (deactivateAdapter nm (Some ''disabled by config update'') deactivate s1)
             else ([], s1)
      | Inherited \<Rightarrow>
          if Some nm = activeAdapterName s \<and> enabledUpdate configUpdate = Some False
          then (WriteBuiltinObject nm #
                  fst (snd (deactivateAdapter nm (Some ''disabled by config update'') deactivate s)),
                snd (snd (deactivateAdapter nm (Some ''disabled by config update'') deactivate s)))
          else ([WriteBuiltinObject nm], s)
      | Missing \<Rightarrow> ([], s))"

subsection \<open>Sequences of calls\<close>

datatype StoreCall =
  RegisterPlugin AdapterPlugin PluginConfig nat
  | UnregisterPlugin string "unit attempt" "unit attempt"
  | ActivateAdapter string "unit attempt" "unit attempt" "unit attempt" nat
  | DeactivateAdapter string "string option" "unit attempt"
  | UpdatePluginConfig string ConfigUpdate "unit attempt"
  | SetPluginError string err

fun step :: "AdapterState \<Rightarrow> StoreCall \<Rightarrow> AdapterState" where
  "step s (RegisterPlugin p cfg now) = snd (snd (registerPlugin p cfg now s))"
| "step s (UnregisterPlugin nm d c) = snd (snd (unregisterPlugin nm d c s))"
| "step s (ActivateAdapter nm pd i a now) = snd (snd (activateAdapter nm pd i a now s))"
| "step s (DeactivateAdapter nm reason d) = snd (snd (deactivateAdapter nm reason d s))"
| "step s (UpdatePluginConfig nm u d) = snd (updatePluginConfig nm u d s)"
| "step s (SetPluginError nm e) = snd (setPluginError nm e s)"

definition run :: "StoreCall list \<Rightarrow> AdapterState" where
  "run calls = foldl step initialState calls"

section \<open>The automation service\<close>

text \<open>
  One run of \<open>handleToolExecutionComplete\<close> reads the user preferences and the adapter
  store through \<open>storeRefs\<close> and calls the capabilities of the active plugin. The model
  returns what the run does as a list of effects in program order: a capability call
  that is made and awaited, a sleep of so many milliseconds, a \<open>setTimeout\<close> with the
  capability call its callback makes when the timer fires, the write of the policy to
  the window, and the effects of the auto-execute task, which is started and not awaited.

  An accessor of \<open>storeRefs\<close> is \<open>None\<close> while it is \<open>null\<close>; otherwise it holds
  what the read gives during this run: \<open>Inr v\<close>, or \<open>Inl e\<close> when its promise
  rejects. The stores are read as they are when the event arrives. A bound capability is a
  function from its argument to the outcome of the call.
\<close>

record AutomationState =
  autoInsert :: bool
  autoSubmit :: bool
  autoExecute :: bool
  autoInsertDelay :: nat
  autoSubmitDelay :: nat
  autoExecuteDelay :: nat

record ToolExecutionCompleteDetail =
  result :: "string option"
  isFileAttachment :: "bool option"
  file' :: "File option"
  fileName :: "string option"
  confirmationText :: "string option"
  skipAutoInsertCheck :: "bool option"
  callId :: "string option"
  functionName :: "string option"

record StoreRefs =
  getUserPreferences :: "AutomationState attempt option"
  getCurrentAdapterState :: "AdapterState attempt option"

record CurrentAdapterState =
  plugin' :: "AdapterPlugin option"
  insertText' :: "(string \<Rightarrow> bool attempt) option"
  attachFile' :: "(File \<Rightarrow> bool attempt) option"
  submitForm' :: "bool attempt option"
  isReady :: bool

datatype capabilityCall = InsertText string | AttachFile File | SubmitForm

datatype effect =
  Invoke capabilityCall
  | Sleep nat
  | SetTimeout nat capabilityCall
  | ExposeAutomationState AutomationState
  | LogAutoExecute
  | Detached effect

text \<open>
  JavaScript truthiness: an optional string is truthy when it is there and not empty
  (\<open>truthyString\<close> then gives the string), an optional boolean when it is \<open>true\<close>.
\<close>

definition truthyString :: "string option \<Rightarrow> string option" where
  "truthyString v = (case v of None \<Rightarrow> None | Some x \<Rightarrow> if x = [] then None else Some x)"

definition truthyFlag :: "bool option \<Rightarrow> bool" where
  "truthyFlag v = (case v of None \<Rightarrow> False | Some b \<Rightarrow> b)"

text \<open>
  The body of the accessor that \<open>initializeStoreAccess\<close> installs (lines 44 to 62),
  applied to the state of the adapter store. \<open>activeAdapterRegistration?.plugin\<close> is
  \<open>undefined\<close> when there is no active registration and when the pointer reads as a
  built-in object; \<open>isReady\<close> is then \<open>false\<close> by \<open>!!plugin\<close>.
\<close>

definition adapterSnapshot :: "AdapterState \<Rightarrow> CurrentAdapterState" where
  "adapterSnapshot adapterState =
     (let activeAdapterRegistration = getActiveAdapter adapterState;
          p = (case activeAdapterRegistration of Own r \<Rightarrow> Some (plugin r) | _ \<Rightarrow> None)
      in \<lparr>plugin' = p,
          insertText' = Option.bind p insertText,
          attachFile' = Option.bind p attachFile,
          submitForm' = Option.bind p submitForm,
          isReady =
            (case activeAdapterRegistration of
               Own r \<Rightarrow> status r = Active \<and> lastAdapterError adapterState = None
             | _ \<Rightarrow> False)\<rparr>)"

definition getAutomationState :: "StoreRefs \<Rightarrow> AutomationState option" where
  "getAutomationState refs =
     (case getUserPreferences refs of
        None \<Rightarrow> None
      | Some (Inl e) \<Rightarrow> None
      | Some (Inr preferences) \<Rightarrow> Some preferences)"

text \<open>
  \<open>await storeRefs.getUserPreferences?.()\<close> followed by \<open>preferences?.delay || 0\<close>:
  no accessor gives the delay 0; a rejected read throws out of the stage.
\<close>

definition stageDelay :: "(AutomationState \<Rightarrow> nat) \<Rightarrow> StoreRefs \<Rightarrow> nat attempt" where
  "stageDelay field refs =
     (case getUserPreferences refs of
        None \<Rightarrow> Inr 0
      | Some (Inl e) \<Rightarrow> Inl e
      | Some (Inr preferences) \<Rightarrow> Inr (field preferences))"

definition sleepFor :: "nat \<Rightarrow> effect list" where
  "sleepFor delay = (if delay > 0 then [Sleep (delay * 1000)] else [])"

definition handleAutoExecute :: "StoreRefs \<Rightarrow> ToolExecutionCompleteDetail \<Rightarrow> unit attempt \<times> effect list" where
  "handleAutoExecute refs detail =
     (case stageDelay autoExecuteDelay refs of
        Inl e \<Rightarrow> (Inl e, [])
      | Inr delay \<Rightarrow> (Inr (), sleepFor delay @ [LogAutoExecute]))"

definition handleAutoInsert :: "StoreRefs \<Rightarrow> ToolExecutionCompleteDetail \<Rightarrow> bool attempt \<times> effect list" where
  "handleAutoInsert refs detail =
     (case stageDelay autoInsertDelay refs of
        Inl e \<Rightarrow> (Inl e, [])
      | Inr delay \<Rightarrow>
          let waited = sleepFor delay in
          if truthyFlag (skipAutoInsertCheck detail) then (Inr False, waited)
          else
            (case getCurrentAdapterState refs of
               None \<Rightarrow> (Inr False, waited)
             | Some (Inl e) \<Rightarrow> (Inr False, waited)
             | Some (Inr adapterState) \<Rightarrow>
                 let cur = adapterSnapshot adapterState in
                 if \<not> isReady cur \<or> plugin' cur = None then (Inr False, waited)
                 else
                   (case (truthyFlag (isFileAttachment detail), file' detail, attachFile' cur) of
                      (True, Some f, Some attachFn) \<Rightarrow>
                        (case attachFn f of
                           Inr success \<Rightarrow>
                             if success then
                               (Inr True,
                                waited @ [Invoke (AttachFile f)] @
                                  (case (truthyString (confirmationText detail), insertText' cur) of
                                     (Some text, Some insertFn) \<Rightarrow> [SetTimeout 100 (InsertText text)]
                                   | _ \<Rightarrow> []))
                             else (Inr False, waited @ [Invoke (AttachFile f)])
                         | Inl attachError \<Rightarrow> (Inr False, waited @ [Invoke (AttachFile f)]))
                    | _ \<Rightarrow>
                        (case (truthyString (result detail), insertText' cur) of
                           (Some text, Some insertFn) \<Rightarrow>
                             (case insertFn text of
                                Inr success \<Rightarrow> (Inr success, waited @ [Invoke (InsertText text)])
                              | Inl insertError \<Rightarrow> (Inr False, waited @ [Invoke (InsertText text)]))
                         | _ \<Rightarrow> (Inr False, waited)))))"

definition handleAutoSubmit :: "StoreRefs \<Rightarrow> ToolExecutionCompleteDetail \<Rightarrow> bool attempt \<times> effect list" where
  "handleAutoSubmit refs detail =
     (case stageDelay autoSubmitDelay refs of
        Inl e \<Rightarrow> (Inl e, [])
      | Inr delay \<Rightarrow>
          let waited = sleepFor delay in
          (case getCurrentAdapterState refs of
             None \<Rightarrow> (Inr False, waited)
           | Some (Inl e) \<Rightarrow> (Inr False, waited)
           | Some (Inr adapterState) \<Rightarrow>
               let cur = adapterSnapshot adapterState in
               if \<not> isReady cur \<or> plugin' cur = None then (Inr False, waited)
               else
                 (case submitForm' cur of
                    None \<Rightarrow> (Inr False, waited)
                  | Some (Inr success) \<Rightarrow> (Inr success, waited @ [Sleep 800, Invoke SubmitForm])
                  | Some (Inl submitError) \<Rightarrow> (Inr False, waited @ [Sleep 800, Invoke SubmitForm]))))"

text \<open>
  The main handler. Its outer \<open>try\<close> catches what a stage throws, so a stage that
  throws ends the run with the effects made so far. \<open>exposeAutomationStateToWindow\<close>
  reads the policy again and writes it to the window.
\<close>

definition exposeAutomationStateToWindow :: "StoreRefs \<Rightarrow> effect list" where
  "exposeAutomationStateToWindow refs =
     (case getAutomationState refs of
        None \<Rightarrow> []
      | Some automationState \<Rightarrow> [ExposeAutomationState automationState])"

definition handleToolExecutionComplete ::
  "StoreRefs \<Rightarrow> ToolExecutionCompleteDetail option \<Rightarrow> effect list" where
  "handleToolExecutionComplete refs eventDetail =
     (case eventDetail of
        None \<Rightarrow> []
      | Some detail \<Rightarrow>
          (case getAutomationState refs of
             None \<Rightarrow> []
           | Some automationState \<Rightarrow>
               let exposed = exposeAutomationStateToWindow refs;
                   executed =
                     (if autoExecute automationState
                      then map Detached (snd (handleAutoExecute refs detail))
                      else []);
                   shouldAutoInsert =
                     (autoInsert automationState \<and> \<not> truthyFlag (skipAutoInsertCheck detail))
               in if shouldAutoInsert then
                    (case handleAutoInsert refs detail of
                       (Inl e, inserted) \<Rightarrow> exposed @ executed @ inserted
                     | (Inr insertSuccess, inserted) \<Rightarrow>
                         if insertSuccess \<and> autoSubmit automationState
                         then exposed @ executed @ inserted @ snd (handleAutoSubmit refs detail)
                         else exposed @ executed @ inserted)
                  else exposed @ executed))"

text \<open>
  The capability calls of a run: those made and awaited in the run, and those made by
  the callbacks of its timers once they fire.
\<close>

fun awaitedCalls :: "effect \<Rightarrow> capabilityCall list" where
  "awaitedCalls (Invoke c) = [c]"
| "awaitedCalls (Detached e) = awaitedCalls e"
| "awaitedCalls _ = []"

fun scheduledCalls :: "effect \<Rightarrow> capabilityCall list" where
  "scheduledCalls (SetTimeout ms c) = [c]"
| "scheduledCalls (Detached e) = scheduledCalls e"
| "scheduledCalls _ = []"

definition eventualCalls :: "effect list \<Rightarrow> capabilityCall list" where
  "eventualCalls es = concat (map awaitedCalls es) @ concat (map scheduledCalls es)"

fun isInsertText :: "capabilityCall \<Rightarrow> bool" where
  "isInsertText (InsertText t) = True"
| "isInsertText _ = False"

section \<open>Properties of the store's states\<close>

text \<open>
  The relation between the \<open>instance\<close> field and the status of a registration, first
  as an equivalence, then as the two implications that leave the status \<open>error\<close>
  free to occur without an instance.
\<close>

definition instanceIffStatus :: "AdapterState \<Rightarrow> bool" where
  "instanceIffStatus s =
     (\<forall>nm r. registeredPlugins s nm = Some r \<longrightarrow>
        (instance' r \<noteq> None) = (status r \<in> {Initialized, Active, Inactive, Error}))"

definition instanceMatchesStatus :: "AdapterState \<Rightarrow> bool" where
  "instanceMatchesStatus s =
     (\<forall>nm r. registeredPlugins s nm = Some r \<longrightarrow>
        (instance' r \<noteq> None \<longrightarrow> status r \<in> {Initialized, Active, Inactive, Error})
        \<and> (status r \<in> {Initialized, Active, Inactive} \<longrightarrow> instance' r \<noteq> None))"

text \<open>The registration named by the exclusive-adapter pointer exists and has its instance.\<close>

definition slotHasInstance :: "AdapterState \<Rightarrow> bool" where
  "slotHasInstance s =
     (\<forall>nm. activeAdapterName s = Some nm \<longrightarrow>
        (\<exists>r. registeredPlugins s nm = Some r \<and> instance' r \<noteq> None))"

definition storeInvariant :: "AdapterState \<Rightarrow> bool" where
  "storeInvariant s = (instanceMatchesStatus s \<and> slotHasInstance s)"

section \<open>Concrete plugins, states and events\<close>

definition examplePlugin :: "string \<Rightarrow> AdapterPlugin" where
  "examplePlugin nm =
     \<lparr>name = nm, version = ''1.0.0'', capabilities = [''text-insertion''],
      insertText = None, attachFile = None, submitForm = None\<rparr>"

text \<open>A plugin with the three capabilities; \<open>accepts\<close> is what its \<open>insertText\<close> returns.\<close>

definition capablePlugin :: "string \<Rightarrow> bool \<Rightarrow> AdapterPlugin" where
  "capablePlugin nm accepts =
     \<lparr>name = nm, version = ''1.0.0'',
      capabilities = [''text-insertion'', ''file-attachment'', ''form-submission''],
      insertText = Some (\<lambda>text. Inr accepts),
      attachFile = Some (\<lambda>f. Inr True),
      submitForm = Some (Inr True)\<rparr>"

definition exampleConfig :: "bool \<Rightarrow> PluginConfig" where
  "exampleConfig b = \<lparr>enabled = b, settings = Map.empty\<rparr>"

definition resolved :: "unit attempt" where
  "resolved = Inr ()"

definition oneActive :: "StoreCall list" where
  "oneActive =
     [RegisterPlugin (examplePlugin ''adapter-a'') (exampleConfig True) 0,
      RegisterPlugin (examplePlugin ''adapter-b'') (exampleConfig True) 1,
      ActivateAdapter ''adapter-a'' resolved resolved resolved 2]"

definition twoActivations :: "StoreCall list" where
  "twoActivations = oneActive @ [ActivateAdapter ''adapter-b'' resolved resolved resolved 3]"

definition disabledActivation :: "StoreCall list" where
  "disabledActivation =
     [RegisterPlugin (examplePlugin ''adapter-a'') (exampleConfig False) 0,
      ActivateAdapter ''adapter-a'' resolved resolved resolved 1]"

definition capableActive :: "bool \<Rightarrow> AdapterState" where
  "capableActive accepts =
     run [RegisterPlugin (capablePlugin ''adapter-a'' accepts) (exampleConfig True) 0,
          ActivateAdapter ''adapter-a'' resolved resolved resolved 1]"

definition allOn :: AutomationState where
  "allOn =
     \<lparr>autoInsert = True, autoSubmit = True, autoExecute = True,
      autoInsertDelay = 2, autoSubmitDelay = 1, autoExecuteDelay = 0\<rparr>"

definition exampleRefs :: "bool \<Rightarrow> StoreRefs" where
  "exampleRefs accepts =
     \<lparr>getUserPreferences = Some (Inr allOn),
      getCurrentAdapterState = Some (Inr (capableActive accepts))\<rparr>"

definition textDetail :: "bool \<Rightarrow> ToolExecutionCompleteDetail" where
  "textDetail skip =
     \<lparr>result = Some ''Test result for auto submit'', isFileAttachment = Some False,
      file' = None, fileName = None, confirmationText = None,
      skipAutoInsertCheck = Some skip, callId = None, functionName = None\<rparr>"

definition testFile :: File where
  "testFile = File ''test.txt'' ''Test file content''"

definition fileDetail :: ToolExecutionCompleteDetail where
  "fileDetail =
     \<lparr>result = None, isFileAttachment = Some True, file' = Some testFile,
      fileName = Some ''test.txt'',
      confirmationText = Some ''File test.txt attached successfully'',
      skipAutoInsertCheck = Some False, callId = None, functionName = None\<rparr>"

section \<open>Theorems about the adapter store\<close>

lemma example_names:
  "''adapter-a'' \<notin> set objectPrototypeNames"
  "''adapter-b'' \<notin> set objectPrototypeNames"
  "''adapter-c'' \<notin> set objectPrototypeNames"
  "''sidebar-plugin'' \<notin> set objectPrototypeNames"
  "''constructor'' \<in> set objectPrototypeNames"
  "''toString'' \<in> set objectPrototypeNames"
  by (simp_all add: objectPrototypeNames_def)

lemmas store_defs = registerPlugin_def unregisterPlugin_def unregisterChain_def setPluginError_def
  deactivatePrevious_def activationFailed_def activateRegistered_def activateAdapter_def
  deactivateAdapter_def updatePluginConfig_def mergeConfig_def getActiveAdapter_def
  initialState_def run_def lookupPlugin_def instanceOf_def example_names

lemma lookupPlugin_Own: "registeredPlugins s nm = Some r \<Longrightarrow> lookupPlugin s nm = Own r"
  by (simp add: lookupPlugin_def)

lemma lookupPlugin_Own_iff: "lookupPlugin s nm = Own r \<longleftrightarrow> registeredPlugins s nm = Some r"
  by (simp add: lookupPlugin_def split: option.splits)

lemma lookupPlugin_None:
  "registeredPlugins s nm = None \<Longrightarrow>
   lookupPlugin s nm = (if nm \<in> set objectPrototypeNames then Inherited else Missing)"
  by (simp add: lookupPlugin_def)

lemmas example_defs = examplePlugin_def capablePlugin_def exampleConfig_def resolved_def
  oneActive_def twoActivations_def disabledActivation_def capableActive_def allOn_def
  exampleRefs_def textDetail_def testFile_def fileDetail_def

subsection \<open>The cases of \<open>setPluginError\<close> and \<open>activateAdapter\<close>\<close>

lemmas invariant_defs = storeInvariant_def instanceMatchesStatus_def slotHasInstance_def

lemma setPluginError_other:
  "other \<noteq> nm \<Longrightarrow>
   registeredPlugins (snd (setPluginError nm e s)) other = registeredPlugins s other"
  by (simp add: setPluginError_def split: lookupResult.splits)

lemma setPluginError_pointer:
  "activeAdapterName (snd (setPluginError nm e s)) = activeAdapterName s"
  by (simp add: setPluginError_def split: lookupResult.splits)

lemma setPluginError_instance:
  "registeredPlugins s n = Some r \<Longrightarrow>
   map_option instance' (registeredPlugins (snd (setPluginError nm e s)) n) = Some (instance' r)"
  by (auto simp: setPluginError_def lookupPlugin_def split: lookupResult.splits option.splits if_splits)

lemma activateRegistered_other:
  "other \<noteq> nm \<Longrightarrow>
   registeredPlugins (snd (snd (activateRegistered nm reg pre i a now s))) other
     = registeredPlugins s other"
  by (auto simp: activateRegistered_def activationFailed_def Let_def
      split: option.splits sum.splits prod.splits)

lemma activateRegistered_sidebar:
  "activeAdapterName (snd (snd (activateRegistered ''sidebar-plugin'' reg pre i a now s)))
     = activeAdapterName s"
  by (auto simp: activateRegistered_def activationFailed_def Let_def
      split: option.splits sum.splits prod.splits)

lemma activateRegistered_target:
  "\<exists>r'. registeredPlugins (snd (snd (activateRegistered nm reg pre i a now s))) nm = Some r'
      \<and> (instance' reg \<noteq> None \<longrightarrow> instance' r' = instance' reg)
      \<and> (instance' reg = None \<and> instance' r' \<noteq> None \<longrightarrow>
            i = Inr () \<and> instance' r' = Some (plugin reg))"
  by (auto simp: activateRegistered_def activationFailed_def Let_def
      split: option.splits sum.splits prod.splits)

lemma invariant_activateRegistered:
  "storeInvariant s \<Longrightarrow> registeredPlugins s nm = Some reg \<Longrightarrow>
   storeInvariant (snd (snd (activateRegistered nm reg pre i a now s)))"
  by (auto simp: invariant_defs activateRegistered_def activationFailed_def Let_def
      split: option.splits sum.splits prod.splits if_splits)


lemma activateAdapter_cases:
  "(\<exists>e. activateAdapter nm pd i a now s = (Inr False, setPluginError nm e s))
   \<or> (\<exists>e. activateAdapter nm pd i a now s = (Inl e, [], s))
   \<or> (\<exists>reg pre. registeredPlugins s nm = Some reg \<and> enabled (config reg) \<and>
        activateAdapter nm pd i a now s = activateRegistered nm reg pre i a now s)"
  by (cases "lookupPlugin s nm"; cases "deactivatePrevious nm pd s")
     (auto simp: activateAdapter_def lookupPlugin_def split: prod.splits option.splits if_splits)

lemma activateAdapter_other_registrations:
  "other \<noteq> nm \<Longrightarrow>
   registeredPlugins (snd (snd (activateAdapter nm pd i a now s))) other = registeredPlugins s other"
  using activateAdapter_cases [of nm pd i a now s]
  by (auto simp: setPluginError_other activateRegistered_other)

lemma invariant_setPluginError:
  "storeInvariant s \<Longrightarrow> storeInvariant (snd (setPluginError nm e s))"
  by (auto simp: invariant_defs setPluginError_def lookupPlugin_def
      split: lookupResult.splits option.splits if_splits)

lemma invariant_activateAdapter:
  "storeInvariant s \<Longrightarrow> storeInvariant (snd (snd (activateAdapter nm pd i a now s)))"
  using activateAdapter_cases [of nm pd i a now s]
  by (auto simp: invariant_setPluginError invariant_activateRegistered)

lemma activateAdapter_instance_kept:
  assumes "registeredPlugins s n = Some r" and "instance' r = Some inst"
  shows "\<exists>r'. registeredPlugins (snd (snd (activateAdapter nm pd i a now s))) n = Some r'
           \<and> instance' r' = Some inst"
proof (cases "n = nm")
  case False
  then show ?thesis
    using assms activateAdapter_other_registrations [of n nm pd i a now s] by simp
next
  case True
  from activateAdapter_cases [of nm pd i a now s] show ?thesis
  proof (elim disjE exE conjE)
    fix e
    assume "activateAdapter nm pd i a now s = (Inr False, setPluginError nm e s)"
    then show ?thesis
      using assms setPluginError_instance [OF assms(1), of nm e] by auto
  next
    fix e
    assume "activateAdapter nm pd i a now s = (Inl e, [], s)"
    then show ?thesis
      using assms by auto
  next
    fix reg pre
    assume "registeredPlugins s nm = Some reg"
      and "activateAdapter nm pd i a now s = activateRegistered nm reg pre i a now s"
    then show ?thesis
      using assms True activateRegistered_target [of nm reg pre i a now s] by auto
  qed
qed

lemma activateAdapter_instance_created:
  assumes "registeredPlugins s n = Some r" and "instance' r = None"
    and "registeredPlugins (snd (snd (activateAdapter nm pd i a now s))) n = Some r'"
    and "instance' r' \<noteq> None"
  shows "n = nm \<and> i = Inr () \<and> instance' r' = Some (plugin r)"
proof (cases "n = nm")
  case False
  then show ?thesis
    using assms activateAdapter_other_registrations [of n nm pd i a now s] by simp
next
  case True
  from activateAdapter_cases [of nm pd i a now s] show ?thesis
  proof (elim disjE exE conjE)
    fix e
    assume "activateAdapter nm pd i a now s = (Inr False, setPluginError nm e s)"
    then show ?thesis
      using assms setPluginError_instance [OF assms(1), of nm e] by auto
  next
    fix e
    assume "activateAdapter nm pd i a now s = (Inl e, [], s)"
    then show ?thesis
      using assms by auto
  next
    fix reg pre
    assume "registeredPlugins s nm = Some reg"
      and "activateAdapter nm pd i a now s = activateRegistered nm reg pre i a now s"
    then show ?thesis
      using assms True activateRegistered_target [of nm reg pre i a now s] by auto
  qed
qed

subsection \<open>Exclusive adapter\<close>

text \<open>
  C1. Invariant I1 asks that, in every state reached by calls of the store's actions, at
  most one registration other than \<open>sidebar-plugin\<close> has the status \<open>active\<close>.
  The store does not keep it: after \<open>adapter-a\<close> and \<open>adapter-b\<close> are registered
  and activated one after the other, every plugin call resolving, both registrations have
  the status \<open>active\<close>. Activating \<open>adapter-b\<close> calls \<open>deactivate\<close> on
  \<open>adapter-a\<close> and never writes its status.
\<close>

theorem two_exclusive_adapters_active:
  "map_option status (registeredPlugins (run twoActivations) ''adapter-a'') = Some Active
   \<and> map_option status (registeredPlugins (run twoActivations) ''adapter-b'') = Some Active
   \<and> map_option (name \<circ> plugin) (registeredPlugins (run twoActivations) ''adapter-a'')
       = Some ''adapter-a''
   \<and> map_option (name \<circ> plugin) (registeredPlugins (run twoActivations) ''adapter-b'')
       = Some ''adapter-b''
   \<and> ''adapter-a'' \<noteq> ''sidebar-plugin'' \<and> ''adapter-b'' \<noteq> ''sidebar-plugin''
   \<and> ''adapter-a'' \<noteq> ''adapter-b''"
  by (simp add: store_defs example_defs Let_def)

text \<open>
  C2. When \<open>adapter-a\<close> holds the exclusive slot with the status \<open>active\<close>, a
  successful \<open>activateAdapter\<close> of the enabled plugin \<open>adapter-b\<close> should leave
  \<open>adapter-a\<close> \<open>inactive\<close> or \<open>error\<close>, and make \<open>adapter-b\<close> the
  exclusive adapter. The call returns \<open>true\<close>, calls \<open>deactivate\<close> on
  \<open>adapter-a\<close>, emits \<open>adapter:deactivated\<close> for it and moves the pointer to
  \<open>adapter-b\<close>, and the status of \<open>adapter-a\<close> is still \<open>active\<close>.
\<close>

theorem switch_leaves_previous_active:
  "activeAdapterName (run oneActive) = Some ''adapter-a''
   \<and> map_option status (registeredPlugins (run oneActive) ''adapter-a'') = Some Active
   \<and> fst (activateAdapter ''adapter-b'' resolved resolved resolved 3 (run oneActive)) = Inr True
   \<and> fst (snd (activateAdapter ''adapter-b'' resolved resolved resolved 3 (run oneActive)))
       = [CallDeactivate ''adapter-a'', Emit ''adapter:deactivated'' ''adapter-a'',
          CallInitialize ''adapter-b'', Emit ''plugin:initialization-complete'' ''adapter-b'',
          CallActivate ''adapter-b'', Emit ''adapter:activated'' ''adapter-b'',
          Emit ''adapter:capability-changed'' ''adapter-b'']
   \<and> activeAdapterName
         (snd (snd (activateAdapter ''adapter-b'' resolved resolved resolved 3 (run oneActive))))
       = Some ''adapter-b''
   \<and> map_option status
         (registeredPlugins
            (snd (snd (activateAdapter ''adapter-b'' resolved resolved resolved 3 (run oneActive))))
            ''adapter-a'')
       = Some Active"
  by (simp add: store_defs example_defs Let_def)

subsection \<open>Activation that cannot start, and the sidebar plugin\<close>

text \<open>
  For a name that reads as nothing at all, and for a registered name that is disabled,
  \<open>activateAdapter\<close> returns \<open>false\<close> and leaves the exclusive-adapter pointer.
\<close>

lemma activate_missing_or_disabled_fails:
  assumes "lookupPlugin s nm = Missing
           \<or> (\<exists>r. registeredPlugins s nm = Some r \<and> \<not> enabled (config r))"
  shows "fst (activateAdapter nm prevDeactivate initialize activate now s) = Inr False
         \<and> activeAdapterName (snd (snd (activateAdapter nm prevDeactivate initialize activate now s)))
             = activeAdapterName s"
  using assms
  by (auto simp: activateAdapter_def setPluginError_def lookupPlugin_def
      split: lookupResult.splits option.splits if_splits)

text \<open>
  A name that reads as a built-in object can never be registered, and activating it while
  it is not registered rejects, in every state.
\<close>

lemma registerPlugin_inherited_refused:
  "name p \<in> set objectPrototypeNames \<Longrightarrow> registerPlugin p cfg now s = (Inr False, [], s)"
  by (simp add: registerPlugin_def lookupPlugin_def split: option.splits)

lemma activateAdapter_inherited_rejects:
  "nm \<in> set objectPrototypeNames \<Longrightarrow> registeredPlugins s nm = None \<Longrightarrow>
   activateAdapter nm prevDeactivate initialize activate now s = (Inl (TypeError ''enabled''), [], s)"
  by (simp add: activateAdapter_def lookupPlugin_def)

text \<open>
  C6. For a name that is not in the registration map, \<open>activateAdapter\<close> should
  return \<open>false\<close> and leave the exclusive-adapter pointer. On the initial store no
  name is registered, and no call can register \<open>constructor\<close>. For that name the
  read \<open>registeredPlugins[name]\<close> finds the function every object inherits, the guard
  for an unknown name does not fire, and \<open>pluginReg.config.enabled\<close> throws: the
  promise rejects with a \<open>TypeError\<close> instead of resolving to \<open>false\<close>. The
  pointer and the rest of the store are as they were.
\<close>

theorem unknown_inherited_name_rejects:
  "registeredPlugins initialState ''constructor'' = None
   \<and> fst (activateAdapter ''constructor'' resolved resolved resolved 0 initialState)
       = Inl (TypeError ''enabled'')
   \<and> fst (activateAdapter ''constructor'' resolved resolved resolved 0 initialState) \<noteq> Inr False
   \<and> snd (activateAdapter ''constructor'' resolved resolved resolved 0 initialState)
       = ([], initialState)
   \<and> fst (registerPlugin (examplePlugin ''constructor'') (exampleConfig True) 0 initialState)
       = Inr False"
  by (simp add: activateAdapter_def registerPlugin_def lookupPlugin_def example_names
      examplePlugin_def initialState_def)

text \<open>
  C7. \<open>activateAdapter\<close> of \<open>sidebar-plugin\<close> leaves the exclusive-adapter pointer
  as it was, in every state and whatever the plugin calls do.
\<close>

theorem sidebar_activation_keeps_slot:
  "activeAdapterName
     (snd (snd (activateAdapter ''sidebar-plugin'' prevDeactivate initialize activate now s)))
   = activeAdapterName s"
  using activateAdapter_cases [of "''sidebar-plugin''" prevDeactivate initialize activate now s]
  by (auto simp: setPluginError_pointer activateRegistered_sidebar)

theorem sidebar_activation_keeps_slot_witness:
  "activeAdapterName
     (snd (snd (activateAdapter ''sidebar-plugin'' resolved resolved resolved 4
        (snd (snd (registerPlugin (examplePlugin ''sidebar-plugin'') (exampleConfig True) 3
           (run oneActive)))))))
   = Some ''adapter-a''
   \<and> fst (activateAdapter ''sidebar-plugin'' resolved resolved resolved 4
        (snd (snd (registerPlugin (examplePlugin ''sidebar-plugin'') (exampleConfig True) 3
           (run oneActive)))))
     = Inr True"
  using sidebar_activation_keeps_slot
    [of resolved resolved resolved 4
       "snd (snd (registerPlugin (examplePlugin ''sidebar-plugin'') (exampleConfig True) 3
          (run oneActive)))"]
  by (simp add: store_defs example_defs Let_def)

subsection \<open>Unregistration and failed deactivation\<close>

text \<open>
  C9. For a registered name, \<open>unregisterPlugin\<close> resolves, whatever \<open>deactivate\<close>
  and \<open>cleanup\<close> do; the registration is gone from the map afterwards; and when the
  name held the exclusive slot, the pointer is \<open>null\<close> and the current capabilities
  are empty.
\<close>

theorem unregister_always_removes:
  assumes "registeredPlugins s nm = Some pluginReg"
  shows "fst (unregisterPlugin nm deactivate cleanup s) = Inr ()
         \<and> registeredPlugins (snd (snd (unregisterPlugin nm deactivate cleanup s))) nm = None
         \<and> (activeAdapterName s = Some nm \<longrightarrow>
              activeAdapterName (snd (snd (unregisterPlugin nm deactivate cleanup s))) = None
              \<and> currentCapabilities (snd (snd (unregisterPlugin nm deactivate cleanup s))) = [])"
  using lookupPlugin_Own [OF assms]
  by (simp add: unregisterPlugin_def unregisterChain_def Let_def
      split: option.splits sum.splits prod.splits)

theorem unregister_always_removes_witness:
  "registeredPlugins (run oneActive) ''adapter-a'' \<noteq> None
   \<and> activeAdapterName (run oneActive) = Some ''adapter-a''
   \<and> fst (unregisterPlugin ''adapter-a'' (Inl (ErrorObject ''detach failed'')) resolved (run oneActive))
       = Inr ()
   \<and> fst (snd (unregisterPlugin ''adapter-a'' (Inl (ErrorObject ''detach failed'')) resolved
                 (run oneActive)))
       = [CallDeactivate ''adapter-a'', Emit ''plugin:unregistered'' ''adapter-a'']
   \<and> registeredPlugins
         (snd (snd (unregisterPlugin ''adapter-a'' (Inl (ErrorObject ''detach failed'')) resolved
                      (run oneActive)))) ''adapter-a'' = None
   \<and> activeAdapterName
         (snd (snd (unregisterPlugin ''adapter-a'' (Inl (ErrorObject ''detach failed'')) resolved
                      (run oneActive)))) = None
   \<and> currentCapabilities
         (snd (snd (unregisterPlugin ''adapter-a'' (Inl (ErrorObject ''detach failed'')) resolved
                      (run oneActive)))) = []"
proof -
  obtain r where r: "registeredPlugins (run oneActive) ''adapter-a'' = Some r"
    by (simp add: store_defs example_defs)
  have slot: "activeAdapterName (run oneActive) = Some ''adapter-a''"
    by (simp add: store_defs example_defs)
  have calls:
    "fst (snd (unregisterPlugin ''adapter-a'' (Inl (ErrorObject ''detach failed'')) resolved
                 (run oneActive)))
       = [CallDeactivate ''adapter-a'', Emit ''plugin:unregistered'' ''adapter-a'']"
    by (simp add: store_defs example_defs)
  show ?thesis
    using r slot calls
      unregister_always_removes
        [OF r, of "Inl (ErrorObject ''detach failed'')" resolved]
    by simp
qed

text \<open>
  C10. When \<open>nm\<close> holds the exclusive slot and its \<open>deactivate\<close> capability
  throws, \<open>deactivateAdapter\<close> leaves the registration with the status \<open>error\<close>,
  records the name and the error in \<open>lastAdapterError\<close>, and clears neither the
  pointer nor the current capabilities.
\<close>

theorem deactivate_failure_keeps_slot:
  assumes "registeredPlugins s nm = Some pluginReg"
    and "activeAdapterName s = Some nm"
    and "instance' pluginReg \<noteq> None"
  shows "CallDeactivate nm \<in> set (fst (snd (deactivateAdapter nm reason (Inl e) s)))
         \<and> map_option status (registeredPlugins (snd (snd (deactivateAdapter nm reason (Inl e) s))) nm)
             = Some Error
         \<and> map_option error (registeredPlugins (snd (snd (deactivateAdapter nm reason (Inl e) s))) nm)
             = Some (Some e)
         \<and> lastAdapterError (snd (snd (deactivateAdapter nm reason (Inl e) s))) = Some (nm, e)
         \<and> activeAdapterName (snd (snd (deactivateAdapter nm reason (Inl e) s))) = Some nm
         \<and> currentCapabilities (snd (snd (deactivateAdapter nm reason (Inl e) s)))
             = currentCapabilities s"
  using assms lookupPlugin_Own [OF assms(1)]
  by (auto simp: deactivateAdapter_def Let_def split: option.splits)

theorem deactivate_failure_keeps_slot_witness:
  "activeAdapterName (run oneActive) = Some ''adapter-a''
   \<and> map_option status
        (registeredPlugins
           (snd (snd (deactivateAdapter ''adapter-a'' None (Inl (ErrorObject ''busy''))
                        (run oneActive)))) ''adapter-a'')
       = Some Error
   \<and> lastAdapterError
        (snd (snd (deactivateAdapter ''adapter-a'' None (Inl (ErrorObject ''busy''))
                     (run oneActive))))
       = Some (''adapter-a'', ErrorObject ''busy'')
   \<and> activeAdapterName
        (snd (snd (deactivateAdapter ''adapter-a'' None (Inl (ErrorObject ''busy''))
                     (run oneActive))))
       = Some ''adapter-a''
   \<and> currentCapabilities
        (snd (snd (deactivateAdapter ''adapter-a'' None (Inl (ErrorObject ''busy''))
                     (run oneActive))))
       = [''text-insertion'']"
proof -
  obtain r where r: "registeredPlugins (run oneActive) ''adapter-a'' = Some r"
    and inst: "instance' r \<noteq> None"
    by (simp add: store_defs example_defs)
  have slot: "activeAdapterName (run oneActive) = Some ''adapter-a''"
    by (simp add: store_defs example_defs)
  have caps: "currentCapabilities (run oneActive) = [''text-insertion'']"
    by (simp add: store_defs example_defs)
  show ?thesis
    using slot caps
      deactivate_failure_keeps_slot [OF r slot inst, of None "ErrorObject ''busy''"]
    by simp
qed

subsection \<open>The instance of a registration\<close>

text \<open>Every action keeps \<open>storeInvariant\<close>; so every reachable state has it.\<close>

lemma invariant_initialState: "storeInvariant initialState"
  by (simp add: invariant_defs initialState_def)

lemma invariant_registerPlugin:
  "storeInvariant s \<Longrightarrow> storeInvariant (snd (snd (registerPlugin p cfg now s)))"
  by (auto simp: invariant_defs registerPlugin_def lookupPlugin_def Let_def
      split: option.splits if_splits)

lemma invariant_unregisterPlugin:
  "storeInvariant s \<Longrightarrow> storeInvariant (snd (snd (unregisterPlugin nm d c s)))"
  by (auto simp: invariant_defs unregisterPlugin_def lookupPlugin_def Let_def
      split: lookupResult.splits option.splits sum.splits prod.splits if_splits)

lemma invariant_deactivateAdapter:
  "storeInvariant s \<Longrightarrow> storeInvariant (snd (snd (deactivateAdapter nm reason d s)))"
  by (auto simp: invariant_defs deactivateAdapter_def lookupPlugin_def Let_def
      split: lookupResult.splits option.splits sum.splits prod.splits if_splits)

lemma invariant_config_write:
  "storeInvariant s \<Longrightarrow> registeredPlugins s nm = Some r \<Longrightarrow>
   storeInvariant (s\<lparr>registeredPlugins := (registeredPlugins s)(nm \<mapsto> r\<lparr>config := c\<rparr>)\<rparr>)"
  by (auto simp: invariant_defs)

lemma invariant_updatePluginConfig:
  "storeInvariant s \<Longrightarrow> storeInvariant (snd (updatePluginConfig nm u d s))"
  by (auto simp: updatePluginConfig_def lookupPlugin_Own_iff Let_def invariant_config_write
        invariant_deactivateAdapter
      split: lookupResult.splits prod.splits)

lemma invariant_step: "storeInvariant s \<Longrightarrow> storeInvariant (step s c)"
  by (cases c)
     (simp_all add: invariant_registerPlugin invariant_unregisterPlugin invariant_setPluginError
        invariant_deactivateAdapter invariant_activateAdapter invariant_updatePluginConfig)

lemma invariant_run: "storeInvariant (run calls)"
  unfolding run_def
  by (induction calls rule: rev_induct) (simp_all add: invariant_initialState invariant_step)

text \<open>One call, from any state: an instance that is there stays, and only activation makes one.\<close>

lemma instance_kept:
  assumes "registeredPlugins s nm = Some r" and "instance' r = Some i"
    and "\<forall>d cl. c \<noteq> UnregisterPlugin nm d cl"
  shows "\<exists>r'. registeredPlugins (step s c) nm = Some r' \<and> instance' r' = Some i"
proof (cases c)
  case (ActivateAdapter nm' pd ini act now)
  then show ?thesis
    using activateAdapter_instance_kept [OF assms(1,2), of nm' pd ini act now] by simp
next
  case (SetPluginError nm' e)
  then show ?thesis
    using assms setPluginError_instance [OF assms(1), of nm' e] by auto
qed (use assms in \<open>auto simp: registerPlugin_def unregisterPlugin_def deactivateAdapter_def
      updatePluginConfig_def lookupPlugin_def Let_def
      split: lookupResult.splits option.splits sum.splits prod.splits if_splits\<close>)

lemma instance_created:
  assumes "registeredPlugins s nm = Some r" and "instance' r = None"
    and "registeredPlugins (step s c) nm = Some r'" and "instance' r' \<noteq> None"
  shows "(\<exists>pd a now. c = ActivateAdapter nm pd (Inr ()) a now) \<and> instance' r' = Some (plugin r)"
proof (cases c)
  case (ActivateAdapter nm' pd ini act now)
  then show ?thesis
    using activateAdapter_instance_created [OF assms(1,2), of nm' pd ini act now r'] assms(3,4)
    by simp
next
  case (SetPluginError nm' e)
  then show ?thesis
    using assms setPluginError_instance [OF assms(1), of nm' e] by auto
qed (use assms in \<open>auto simp: registerPlugin_def unregisterPlugin_def deactivateAdapter_def
      updatePluginConfig_def lookupPlugin_def Let_def
      split: lookupResult.splits option.splits sum.splits prod.splits if_splits\<close>)

text \<open>
  C5, as stated. Invariant I2 reads: in every reachable state the instance of a
  registration is present if and only if its status is one of \<open>initialized\<close>,
  \<open>active\<close>, \<open>inactive\<close>, \<open>error\<close>. It fails after a plugin registered with
  \<open>enabled = false\<close> is activated: the guard calls \<open>setPluginError\<close>, the status is
  \<open>error\<close>, and no instance was ever made.
\<close>

theorem error_status_without_instance: "\<not> instanceIffStatus (run disabledActivation)"
proof
  assume iff: "instanceIffStatus (run disabledActivation)"
  obtain r where r: "registeredPlugins (run disabledActivation) ''adapter-a'' = Some r"
    and "status r = Error" and "instance' r = None"
    by (simp add: store_defs example_defs)
  with iff show False
    unfolding instanceIffStatus_def by fastforce
qed

text \<open>
  C5, amended. In every reachable state, a registration that has an instance has one of
  the statuses \<open>initialized\<close>, \<open>active\<close>, \<open>inactive\<close>, \<open>error\<close>, and a
  registration whose status is \<open>initialized\<close>, \<open>active\<close> or \<open>inactive\<close> has an
  instance. An instance that is present is the same after every call that does not
  unregister that name. A registration without an instance gets one only from an
  \<open>activateAdapter\<close> of its name whose \<open>initialize\<close> resolves, and the instance is
  the registration's plugin.
\<close>

theorem instance_lifecycle:
  "instanceMatchesStatus (run calls)
   \<and> (\<forall>nm r i c.
        registeredPlugins (run calls) nm = Some r \<and> instance' r = Some i
        \<and> (\<forall>d cl. c \<noteq> UnregisterPlugin nm d cl) \<longrightarrow>
        (\<exists>r'. registeredPlugins (step (run calls) c) nm = Some r' \<and> instance' r' = Some i))
   \<and> (\<forall>nm r r' c.
        registeredPlugins (run calls) nm = Some r \<and> instance' r = None
        \<and> registeredPlugins (step (run calls) c) nm = Some r' \<and> instance' r' \<noteq> None \<longrightarrow>
        (\<exists>pd a now. c = ActivateAdapter nm pd (Inr ()) a now) \<and> instance' r' = Some (plugin r))"
proof (intro conjI allI impI)
  show "instanceMatchesStatus (run calls)"
    using invariant_run [of calls] by (simp add: storeInvariant_def)
next
  fix nm r i c
  assume "registeredPlugins (run calls) nm = Some r \<and> instance' r = Some i
          \<and> (\<forall>d cl. c \<noteq> UnregisterPlugin nm d cl)"
  then show "\<exists>r'. registeredPlugins (step (run calls) c) nm = Some r' \<and> instance' r' = Some i"
    using instance_kept [of "run calls" nm r i c] by blast
next
  fix nm r r' c
  assume a: "registeredPlugins (run calls) nm = Some r \<and> instance' r = None
          \<and> registeredPlugins (step (run calls) c) nm = Some r' \<and> instance' r' \<noteq> None"
  then show "\<exists>pd a now. c = ActivateAdapter nm pd (Inr ()) a now"
    using instance_created [of "run calls" nm r c r'] by blast
  from a show "instance' r' = Some (plugin r)"
    using instance_created [of "run calls" nm r c r'] by blast
qed

theorem instance_lifecycle_witness:
  "instanceMatchesStatus (run oneActive)
   \<and> map_option status (registeredPlugins (run oneActive) ''adapter-a'') = Some Active
   \<and> map_option instance' (registeredPlugins (run oneActive) ''adapter-a'')
       = Some (Some (examplePlugin ''adapter-a''))
   \<and> map_option instance'
        (registeredPlugins
           (step (run oneActive) (SetPluginError ''adapter-a'' (ErrorMessage ''lost'')))
           ''adapter-a'')
       = Some (Some (examplePlugin ''adapter-a''))
   \<and> map_option instance' (registeredPlugins (run oneActive) ''adapter-b'') = Some None
   \<and> map_option instance'
        (registeredPlugins
           (step (run oneActive) (ActivateAdapter ''adapter-b'' resolved resolved resolved 3))
           ''adapter-b'')
       = Some (Some (examplePlugin ''adapter-b''))"
proof -
  note lifecycle = instance_lifecycle [of oneActive]
  obtain r where r: "registeredPlugins (run oneActive) ''adapter-a'' = Some r"
    and st: "status r = Active" and inst: "instance' r = Some (examplePlugin ''adapter-a'')"
    by (simp add: store_defs example_defs)
  have "\<forall>d cl. SetPluginError ''adapter-a'' (ErrorMessage ''lost'') \<noteq> UnregisterPlugin ''adapter-a'' d cl"
    by simp
  with lifecycle r inst
  obtain r' where
    "registeredPlugins (step (run oneActive) (SetPluginError ''adapter-a'' (ErrorMessage ''lost'')))
       ''adapter-a'' = Some r'"
    and "instance' r' = Some (examplePlugin ''adapter-a'')"
    by blast
  moreover have "map_option instance' (registeredPlugins (run oneActive) ''adapter-b'') = Some None"
    by (simp add: store_defs example_defs)
  moreover have "map_option instance'
        (registeredPlugins
           (step (run oneActive) (ActivateAdapter ''adapter-b'' resolved resolved resolved 3))
           ''adapter-b'')
       = Some (Some (examplePlugin ''adapter-b''))"
    by (simp add: store_defs example_defs Let_def)
  ultimately show ?thesis
    using lifecycle r st inst by simp
qed

section \<open>Theorems about the automation service\<close>

lemmas automation_defs = handleToolExecutionComplete_def handleAutoInsert_def handleAutoSubmit_def
  handleAutoExecute_def exposeAutomationStateToWindow_def getAutomationState_def stageDelay_def
  sleepFor_def eventualCalls_def adapterSnapshot_def truthyFlag_def truthyString_def

lemma eventualCalls_Nil: "eventualCalls [] = []"
  by (simp add: eventualCalls_def)

lemma eventualCalls_append_Nil:
  "eventualCalls (a @ b) = [] \<longleftrightarrow> eventualCalls a = [] \<and> eventualCalls b = []"
  by (auto simp: eventualCalls_def)

lemma set_eventualCalls_append:
  "set (eventualCalls (a @ b)) = set (eventualCalls a) \<union> set (eventualCalls b)"
  by (auto simp: eventualCalls_def)

lemma eventualCalls_split:
  assumes "eventualCalls pre = []"
  shows "eventualCalls (pre @ mid @ post) =
     concat (map awaitedCalls mid) @ concat (map awaitedCalls post) @
     concat (map scheduledCalls mid) @ concat (map scheduledCalls post)"
proof -
  from assms have a: "concat (map awaitedCalls pre) = []"
    and b: "concat (map scheduledCalls pre) = []"
    unfolding eventualCalls_def append_is_Nil_conv by blast+
  show ?thesis
    by (simp only: eventualCalls_def map_append concat_append a b append_Nil append_assoc)
qed

text \<open>The auto-execute task and the write to the window call no capability.\<close>

lemma executed_no_calls:
  "eventualCalls (map Detached (snd (handleAutoExecute refs detail))) = []"
  by (simp add: handleAutoExecute_def sleepFor_def eventualCalls_def split: sum.splits)

lemma exposed_no_calls: "eventualCalls (exposeAutomationStateToWindow refs) = []"
  by (auto simp: exposeAutomationStateToWindow_def eventualCalls_def split: option.splits)

text \<open>The insert stage never submits; the submit stage never inserts.\<close>

lemma submit_not_in_insert:
  "SubmitForm \<notin> set (eventualCalls (snd (handleAutoInsert refs detail)))"
  by (auto simp: handleAutoInsert_def sleepFor_def Let_def eventualCalls_def
      split: sum.splits option.splits bool.splits if_splits prod.splits)

lemma submit_stage_calls:
  "filter isInsertText (eventualCalls (snd (handleAutoSubmit refs detail))) = []"
  by (auto simp: handleAutoSubmit_def sleepFor_def Let_def eventualCalls_def
      split: sum.splits option.splits bool.splits if_splits prod.splits)

subsection \<open>The skip flag\<close>

text \<open>
  C3. For an event whose \<open>skipAutoInsertCheck\<close> flag is true and a policy with
  \<open>autoInsert\<close> and \<open>autoSubmit\<close> both true, the run calls neither \<open>insertText\<close>
  nor \<open>submitForm\<close>, now or from a timer.
\<close>

theorem skip_flag_blocks_insert_and_submit:
  assumes "skipAutoInsertCheck detail = Some True"
    and "getUserPreferences refs = Some (Inr policy)"
    and "autoInsert policy" and "autoSubmit policy"
  shows "filter (\<lambda>c. isInsertText c \<or> c = SubmitForm)
           (eventualCalls (handleToolExecutionComplete refs (Some detail))) = []"
proof -
  have "handleToolExecutionComplete refs (Some detail) =
          exposeAutomationStateToWindow refs @
          (if autoExecute policy then map Detached (snd (handleAutoExecute refs detail)) else [])"
    using assms
    by (simp add: handleToolExecutionComplete_def getAutomationState_def truthyFlag_def Let_def)
  then have "eventualCalls (handleToolExecutionComplete refs (Some detail)) = []"
    by (simp add: eventualCalls_append_Nil eventualCalls_Nil executed_no_calls exposed_no_calls)
  then show ?thesis by simp
qed

theorem skip_flag_blocks_insert_and_submit_witness:
  "skipAutoInsertCheck (textDetail True) = Some True
   \<and> getUserPreferences (exampleRefs True) = Some (Inr allOn)
   \<and> autoInsert allOn \<and> autoSubmit allOn
   \<and> filter (\<lambda>c. isInsertText c \<or> c = SubmitForm)
        (eventualCalls (handleToolExecutionComplete (exampleRefs True) (Some (textDetail True)))) = []
   \<and> handleToolExecutionComplete (exampleRefs True) (Some (textDetail True))
       = [ExposeAutomationState allOn, Detached LogAutoExecute]
   \<and> eventualCalls (handleToolExecutionComplete (exampleRefs True) (Some (textDetail False)))
       = [InsertText ''Test result for auto submit'', SubmitForm]"
proof -
  have h: "skipAutoInsertCheck (textDetail True) = Some True"
    "getUserPreferences (exampleRefs True) = Some (Inr allOn)"
    "autoInsert allOn" "autoSubmit allOn"
    by (simp_all add: example_defs)
  have "handleToolExecutionComplete (exampleRefs True) (Some (textDetail True))
          = [ExposeAutomationState allOn, Detached LogAutoExecute]"
    by (simp add: automation_defs example_defs)
  moreover have
    "eventualCalls (handleToolExecutionComplete (exampleRefs True) (Some (textDetail False)))
       = [InsertText ''Test result for auto submit'', SubmitForm]"
    by (simp add: automation_defs example_defs store_defs Let_def)
  ultimately show ?thesis
    using h skip_flag_blocks_insert_and_submit [OF h] by simp
qed

subsection \<open>A failed insert stage\<close>

text \<open>
  C4. If the auto-insert stage returns failure, the run does not call \<open>submitForm\<close>,
  whatever the policy says about \<open>autoSubmit\<close>. That covers the case where
  \<open>insertText\<close> was called and returned \<open>false\<close>: the stage then returns failure.
\<close>

theorem failed_insert_blocks_submit:
  "(fst (handleAutoInsert refs detail) = Inr False \<longrightarrow>
      SubmitForm \<notin> set (eventualCalls (handleToolExecutionComplete refs (Some detail))))
   \<and> (getCurrentAdapterState refs = Some (Inr adapterState)
        \<and> insertText' (adapterSnapshot adapterState) = Some insertFn
        \<and> Invoke (InsertText text) \<in> set (snd (handleAutoInsert refs detail))
        \<and> insertFn text = Inr False \<longrightarrow>
      fst (handleAutoInsert refs detail) = Inr False)"
proof (intro conjI impI)
  assume failed: "fst (handleAutoInsert refs detail) = Inr False"
  obtain r es where stage: "handleAutoInsert refs detail = (r, es)"
    by (cases "handleAutoInsert refs detail")
  with failed have r: "r = Inr False" by simp
  have "SubmitForm \<notin> set (eventualCalls es)"
    using submit_not_in_insert [of refs detail] stage by simp
  then show "SubmitForm \<notin> set (eventualCalls (handleToolExecutionComplete refs (Some detail)))"
    using stage r
    by (auto simp: handleToolExecutionComplete_def set_eventualCalls_append eventualCalls_Nil
        executed_no_calls exposed_no_calls Let_def
        split: option.splits)
next
  assume "getCurrentAdapterState refs = Some (Inr adapterState)
        \<and> insertText' (adapterSnapshot adapterState) = Some insertFn
        \<and> Invoke (InsertText text) \<in> set (snd (handleAutoInsert refs detail))
        \<and> insertFn text = Inr False"
  then show "fst (handleAutoInsert refs detail) = Inr False"
    by (auto simp: handleAutoInsert_def sleepFor_def Let_def
        split: sum.splits option.splits bool.splits if_splits prod.splits)
qed

theorem failed_insert_blocks_submit_witness:
  "autoSubmit allOn
   \<and> handleAutoInsert (exampleRefs False) (textDetail False)
       = (Inr False, [Sleep 2000, Invoke (InsertText ''Test result for auto submit'')])
   \<and> SubmitForm \<notin> set (eventualCalls
         (handleToolExecutionComplete (exampleRefs False) (Some (textDetail False))))
   \<and> SubmitForm \<in> set (eventualCalls
         (handleToolExecutionComplete (exampleRefs True) (Some (textDetail False))))"
proof -
  have stage: "handleAutoInsert (exampleRefs False) (textDetail False)
       = (Inr False, [Sleep 2000, Invoke (InsertText ''Test result for auto submit'')])"
    by (simp add: automation_defs example_defs store_defs Let_def)
  have "SubmitForm \<in> set (eventualCalls
         (handleToolExecutionComplete (exampleRefs True) (Some (textDetail False))))"
    by (simp add: automation_defs example_defs store_defs Let_def)
  moreover have "autoSubmit allOn"
    by (simp add: example_defs)
  ultimately show ?thesis
    using stage failed_insert_blocks_submit [of "exampleRefs False" "textDetail False"]
    by simp
qed

subsection \<open>Confirmation text after an attached file\<close>

lemma attach_in_run:
  assumes "Invoke (AttachFile f) \<in> set (handleToolExecutionComplete refs (Some detail))"
  shows "Invoke (AttachFile f) \<in> set (snd (handleAutoInsert refs detail))"
  using assms
  by (auto simp: handleToolExecutionComplete_def handleAutoSubmit_def handleAutoExecute_def
        exposeAutomationStateToWindow_def sleepFor_def Let_def
      split: option.splits sum.splits prod.splits if_splits)

lemma insert_stage_attached:
  assumes "getCurrentAdapterState refs = Some (Inr adapterState)"
    and "attachFile' (adapterSnapshot adapterState) = Some attachFn"
    and "insertText' (adapterSnapshot adapterState) = Some insertFn"
    and "confirmationText detail = Some text" and "text \<noteq> []"
    and "Invoke (AttachFile f) \<in> set (snd (handleAutoInsert refs detail))"
    and "attachFn f = Inr True"
  shows "\<exists>waited. handleAutoInsert refs detail =
           (Inr True, waited @ [Invoke (AttachFile f), SetTimeout 100 (InsertText text)])
         \<and> eventualCalls waited = []"
  using assms
  by (auto simp: handleAutoInsert_def sleepFor_def Let_def truthyString_def eventualCalls_def
      split: sum.splits option.splits bool.splits if_splits prod.splits)

lemma run_after_attach:
  assumes "Invoke (AttachFile f) \<in> set (handleToolExecutionComplete refs (Some detail))"
    and "handleAutoInsert refs detail = (Inr True, waited @ mid)"
    and "eventualCalls waited = []"
  shows "\<exists>pre post. handleToolExecutionComplete refs (Some detail) = pre @ mid @ post
           \<and> eventualCalls pre = [] \<and> filter isInsertText (eventualCalls post) = []"
proof -
  obtain st where st: "getAutomationState refs = Some st"
    using assms(1)
    by (cases "getAutomationState refs") (simp_all add: handleToolExecutionComplete_def)
  define pre where "pre = exposeAutomationStateToWindow refs @
      (if autoExecute st then map Detached (snd (handleAutoExecute refs detail)) else []) @ waited"
  define post where "post = (if autoSubmit st then snd (handleAutoSubmit refs detail) else [])"
  have pre: "eventualCalls pre = []"
    by (simp add: pre_def eventualCalls_append_Nil eventualCalls_Nil executed_no_calls
        exposed_no_calls assms(3))
  have post: "filter isInsertText (eventualCalls post) = []"
    by (simp add: post_def submit_stage_calls eventualCalls_Nil)
  have should: "autoInsert st \<and> \<not> truthyFlag (skipAutoInsertCheck detail)"
  proof (rule ccontr)
    assume "\<not> ?thesis"
    then have "handleToolExecutionComplete refs (Some detail) =
        exposeAutomationStateToWindow refs @
        (if autoExecute st then map Detached (snd (handleAutoExecute refs detail)) else [])"
      using st by (auto simp: handleToolExecutionComplete_def Let_def)
    with assms(1) show False
      by (auto simp: exposeAutomationStateToWindow_def handleAutoExecute_def sleepFor_def
          split: option.splits sum.splits if_splits)
  qed
  have "handleToolExecutionComplete refs (Some detail) = pre @ mid @ post"
    using st should assms(2)
    by (simp add: handleToolExecutionComplete_def Let_def pre_def post_def)
  with pre post show ?thesis by blast
qed

text \<open>
  C8. For an event with confirmation text that is not empty: if the run calls the
  \<open>attachFile\<close> capability of the active adapter on the event's file, the call returns
  \<open>true\<close>, and an \<open>insertText\<close> capability is bound, then the run sets a timer of
  100 ms whose callback calls \<open>insertText\<close> with the confirmation text; so
  \<open>insertText\<close> is called with that text once the timer fires. It is the only call
  of \<open>insertText\<close> the run makes.
\<close>

theorem attachment_schedules_confirmation:
  assumes "getCurrentAdapterState refs = Some (Inr adapterState)"
    and "attachFile' (adapterSnapshot adapterState) = Some attachFn"
    and "insertText' (adapterSnapshot adapterState) = Some insertFn"
    and "confirmationText detail = Some text" and "text \<noteq> []"
    and "Invoke (AttachFile f) \<in> set (handleToolExecutionComplete refs (Some detail))"
    and "attachFn f = Inr True"
  shows "file' detail = Some f
   \<and> SetTimeout 100 (InsertText text) \<in> set (handleToolExecutionComplete refs (Some detail))
   \<and> InsertText text \<in> set (eventualCalls (handleToolExecutionComplete refs (Some detail)))
   \<and> filter isInsertText (eventualCalls (handleToolExecutionComplete refs (Some detail)))
       = [InsertText text]"
proof -
  have attached: "Invoke (AttachFile f) \<in> set (snd (handleAutoInsert refs detail))"
    using attach_in_run [OF assms(6)] .
  then have carried: "file' detail = Some f"
    by (auto simp: handleAutoInsert_def sleepFor_def Let_def
        split: sum.splits option.splits bool.splits if_splits prod.splits)
  from insert_stage_attached [OF assms(1-5) attached assms(7)]
  obtain waited where stage: "handleAutoInsert refs detail =
      (Inr True, waited @ [Invoke (AttachFile f), SetTimeout 100 (InsertText text)])"
    and waited: "eventualCalls waited = []" by blast
  from run_after_attach [OF assms(6) stage waited]
  obtain pre post where shape: "handleToolExecutionComplete refs (Some detail) =
      pre @ [Invoke (AttachFile f), SetTimeout 100 (InsertText text)] @ post"
    and pre: "eventualCalls pre = []"
    and post: "filter isInsertText (eventualCalls post) = []" by blast
  have calls: "eventualCalls (handleToolExecutionComplete refs (Some detail)) =
      AttachFile f # concat (map awaitedCalls post) @
      InsertText text # concat (map scheduledCalls post)"
    unfolding shape eventualCalls_split [OF pre] by simp
  have "filter isInsertText (concat (map awaitedCalls post)) = []"
       "filter isInsertText (concat (map scheduledCalls post)) = []"
    using post by (simp_all add: eventualCalls_def)
  then show ?thesis
    using carried by (simp add: calls) (simp add: shape)
qed

theorem attachment_schedules_confirmation_witness:
  "handleToolExecutionComplete (exampleRefs True) (Some fileDetail)
     = [ExposeAutomationState allOn, Detached LogAutoExecute, Sleep 2000,
        Invoke (AttachFile testFile),
        SetTimeout 100 (InsertText ''File test.txt attached successfully''),
        Sleep 1000, Sleep 800, Invoke SubmitForm]
   \<and> InsertText ''File test.txt attached successfully''
       \<in> set (eventualCalls (handleToolExecutionComplete (exampleRefs True) (Some fileDetail)))
   \<and> filter isInsertText
        (eventualCalls (handleToolExecutionComplete (exampleRefs True) (Some fileDetail)))
       = [InsertText ''File test.txt attached successfully'']"
proof -
  have refs: "getCurrentAdapterState (exampleRefs True) = Some (Inr (capableActive True))"
    by (simp add: example_defs)
  have attach: "attachFile' (adapterSnapshot (capableActive True)) = Some (\<lambda>f. Inr True)"
    and ins: "insertText' (adapterSnapshot (capableActive True)) = Some (\<lambda>text. Inr True)"
    by (simp_all add: adapterSnapshot_def example_defs store_defs Let_def)
  have confirmation: "confirmationText fileDetail = Some ''File test.txt attached successfully''"
    "''File test.txt attached successfully'' \<noteq> []"
    by (simp_all add: example_defs)
  have effects: "handleToolExecutionComplete (exampleRefs True) (Some fileDetail)
     = [ExposeAutomationState allOn, Detached LogAutoExecute, Sleep 2000,
        Invoke (AttachFile testFile),
        SetTimeout 100 (InsertText ''File test.txt attached successfully''),
        Sleep 1000, Sleep 800, Invoke SubmitForm]"
    by (simp add: automation_defs example_defs store_defs Let_def)
  then have invoked: "Invoke (AttachFile testFile)
      \<in> set (handleToolExecutionComplete (exampleRefs True) (Some fileDetail))"
    by simp
  have "(\<lambda>f. Inr True :: bool attempt) testFile = Inr True"
    by simp
  from attachment_schedules_confirmation [OF refs attach ins confirmation invoked this] effects
  show ?thesis by simp
qed

end
